theory Spec2Isabelle
  imports Main
begin

section \<open>The JavaScript built-ins the extension calls\<close>

text \<open>
  \<^verbatim>\<open>String.prototype.indexOf(search, position)\<close>: the position is clamped into
  \<open>0 .. length text\<close>, then the text is scanned upwards from there for the first index
  at which \<open>search\<close> is a substring; \<open>-1\<close> when there is none. A character of the model
  stands for one UTF-16 code unit of the JavaScript string.
\<close>

function stringIndexOf :: "string \<Rightarrow> string \<Rightarrow> nat \<Rightarrow> int" where
  "stringIndexOf text search i =
     (if length text < i + length search then - 1
      else if take (length search) (drop i text) = search then int i
      else stringIndexOf text search (Suc i))"
  by pat_completeness auto
termination
  by (relation "measure (\<lambda>(text, search, i). Suc (length text) - i)") auto

declare stringIndexOf.simps [simp del]

definition indexOf :: "string \<Rightarrow> string \<Rightarrow> int \<Rightarrow> int" where
  "indexOf text search position =
     stringIndexOf text search (nat (min (max position 0) (int (length text))))"

text \<open>
  \<^verbatim>\<open>Array.prototype.indexOf(x)\<close>: the first index holding \<open>x\<close>, or \<open>-1\<close>.
\<close>

fun arrayIndexOf_loop :: "'a list \<Rightarrow> 'a \<Rightarrow> nat \<Rightarrow> int" where
  "arrayIndexOf_loop [] x k = - 1"
| "arrayIndexOf_loop (y # ys) x k = (if y = x then int k else arrayIndexOf_loop ys x (Suc k))"

definition arrayIndexOf :: "'a list \<Rightarrow> 'a \<Rightarrow> int" where
  "arrayIndexOf xs x = arrayIndexOf_loop xs x 0"

text \<open>
  \<^verbatim>\<open>Array.prototype.splice(start, deleteCount)\<close> with no inserted items, as the array it
  leaves behind: a negative \<open>start\<close> counts from the end of the array, and the number of
  deleted entries is cut down to what is left after the start.
\<close>

definition splice_array :: "'a list \<Rightarrow> int \<Rightarrow> int \<Rightarrow> 'a list" where
  "splice_array xs start deleteCount =
     (let len = int (length xs);
          actualStart = (if start < 0 then max (len + start) 0 else min start len);
          actualDeleteCount = min (max deleteCount 0) (len - actualStart)
      in take (nat actualStart) xs @ drop (nat (actualStart + actualDeleteCount)) xs)"

section \<open>The occurrence finder\<close>

text \<open>
  \<^verbatim>\<open>findAll\<close>: the \<^verbatim>\<open>while (index !== -1)\<close> loop with its two variables, the
  current index and the array of indices pushed so far. The array is a list, which
  can grow without end, and nothing in the source bounds the loop, so it is a partial
  function: \<open>None\<close> is a run that never leaves the loop. Such a run pushes one more
  index in every round (\<open>empty_search_keeps_pushing\<close> below). An array of the runtime
  cannot grow without end: \<^verbatim>\<open>push\<close> throws \<^verbatim>\<open>RangeError: Invalid array length\<close> when it
  has reached its greatest length. A run that never leaves the loop therefore ends by
  that exception, and this is how the caller of \<open>findAll\<close> reads \<open>None\<close>.
\<close>

partial_function (option) findAll_loop :: "string \<Rightarrow> string \<Rightarrow> int \<Rightarrow> int list \<Rightarrow> int list option" where
  "findAll_loop text search index indices =
     (if index \<noteq> - 1
      then findAll_loop text search (indexOf text search (index + 1)) (indices @ [index])
      else Some indices)"

declare findAll_loop.simps [code]

definition findAll :: "string \<Rightarrow> string \<Rightarrow> int list option" where
  "findAll text search = findAll_loop text search (indexOf text search 0) []"

text \<open>
  How a call completes: it returns, or it throws. The one exception met in the source
  is the \<^verbatim>\<open>RangeError\<close> of \<^verbatim>\<open>push\<close>.
\<close>

datatype error = RangeError

datatype completion = Returns | Throws error

section \<open>The editor interface\<close>

text \<open>
  The extension runs inside an editor and reaches it through the editor's extension
  interface, which is not part of the repository. The model takes that interface as
  data: positions, ranges, a document and an editor are records, and the document's
  methods are fields holding functions, so every statement below is about any editor
  that offers them.

  A \<^verbatim>\<open>Position\<close> is a line and a character; \<^verbatim>\<open>translate\<close> adds to both and looks at
  no document. The source only translates by \<open>(0, length)\<close> with a string length, so the
  deltas are natural numbers.
\<close>

record position =
  line :: nat
  character :: nat

definition translate :: "position \<Rightarrow> nat \<Rightarrow> nat \<Rightarrow> position" where
  "translate p lineDelta characterDelta =
     \<lparr>line = line p + lineDelta, character = character p + characterDelta\<rparr>"

definition isBefore :: "position \<Rightarrow> position \<Rightarrow> bool" where
  "isBefore p q \<longleftrightarrow> line p < line q \<or> (line p = line q \<and> character p < character q)"

text \<open>
  A \<^verbatim>\<open>Range\<close> is a start and an end position; a \<^verbatim>\<open>Selection\<close> is a range made from
  an anchor and an active position, the earlier of which becomes the start. The source
  reads a selection only as a range, so the model keeps its start and end.
\<close>

record range =
  start :: position
  end_pos :: position

definition Selection :: "position \<Rightarrow> position \<Rightarrow> range" where
  "Selection anchor active =
     (if isBefore anchor active then \<lparr>start = anchor, end_pos = active\<rparr>
      else \<lparr>start = active, end_pos = anchor\<rparr>)"

definition isEmpty :: "range \<Rightarrow> bool" where
  "isEmpty r \<longleftrightarrow> start r = end_pos r"

definition isEqual :: "range \<Rightarrow> range \<Rightarrow> bool" where
  "isEqual r other \<longleftrightarrow> start r = start other \<and> end_pos r = end_pos other"

text \<open>
  The document methods the source calls. \<^verbatim>\<open>getText\<close> has an optional range: without
  one (\<open>None\<close>) it is the whole text. \<^verbatim>\<open>getWordRangeAtPosition\<close> is \<open>None\<close> where the
  editor returns \<^verbatim>\<open>undefined\<close>.
\<close>

record textDocument =
  getText :: "range option \<Rightarrow> string"
  positionAt :: "int \<Rightarrow> position"
  offsetAt :: "position \<Rightarrow> int"
  getWordRangeAtPosition :: "position \<Rightarrow> range option"

text \<open>
  The editor properties the source touches: it reads \<^verbatim>\<open>selection\<close> and assigns
  \<^verbatim>\<open>selections\<close>. An editor always has at least one selection, and \<^verbatim>\<open>selection\<close>, the
  primary one, is the first of \<^verbatim>\<open>selections\<close>. The record keeps the array in that
  shape: the primary selection and the selections after it.

  Assigning \<^verbatim>\<open>selections\<close> goes through the editor's setter, which stores the array it
  is given, except that it stores the single selection from line 0, character 0 to
  line 0, character 0 in place of an empty array. What the editor's window does with
  the stored selections later is outside the call.
  \<^verbatim>\<open>window.activeTextEditor\<close> is \<open>None\<close> when no editor is open.
\<close>

record textEditor =
  document :: textDocument
  selection :: range
  secondary :: "range list"

definition selections :: "textEditor \<Rightarrow> range list" where
  "selections editor = selection editor # secondary editor"

definition set_selections :: "textEditor \<Rightarrow> range list \<Rightarrow> textEditor" where
  "set_selections editor value =
     (case value of
        [] \<Rightarrow> editor\<lparr>selection := Selection \<lparr>line = 0, character = 0\<rparr> \<lparr>line = 0, character = 0\<rparr>,
                      secondary := []\<rparr>
      | s # ss \<Rightarrow> editor\<lparr>selection := s, secondary := ss\<rparr>)"

record window =
  activeTextEditor :: "textEditor option"

section \<open>The extension\<close>

definition indicesToSelections :: "textEditor \<Rightarrow> int list \<Rightarrow> nat \<Rightarrow> range list" where
  "indicesToSelections editor indices len =
     map (\<lambda>i. let start = positionAt (document editor) i
              in Selection start (translate start 0 len)) indices"

definition getSelection :: "textEditor \<Rightarrow> range option \<times> bool" where
  "getSelection editor =
     (if isEmpty (selection editor)
      then (getWordRangeAtPosition (document editor) (start (selection editor)), True)
      else (Some (selection editor), False))"

text \<open>
  The filter of the whole-word branch, \<^verbatim>\<open>wholeWordSelections\<close> in the source: it keeps
  a selection when the editor reports a word range at its start and that range
  \<^verbatim>\<open>isEqual\<close> to it.
\<close>

definition wholeWordSelections :: "textEditor \<Rightarrow> range list \<Rightarrow> range list" where
  "wholeWordSelections editor sels =
     filter (\<lambda>s. case getWordRangeAtPosition (document editor) (start s) of
                    None \<Rightarrow> False
                  | Some r \<Rightarrow> isEqual r s) sels"

text \<open>
  \<^verbatim>\<open>selectAllOther\<close> takes the window and gives how the call completes and the window
  it leaves. The two early returns leave the window as it was. The source catches
  nothing, so an exception thrown in \<open>findAll\<close> leaves the command, and it does so
  before the command has assigned anything.
\<close>

definition selectAllOther :: "window \<Rightarrow> completion \<times> window" where
  "selectAllOther w =
     (case activeTextEditor w of
        None \<Rightarrow> (Returns, w)
      | Some editor \<Rightarrow>
          (case getSelection editor of
             (None, wholeWords) \<Rightarrow> (Returns, w)
           | (Some sel, wholeWords) \<Rightarrow>
               (let selectedText = getText (document editor) (Some sel)
                in case findAll (getText (document editor) None) selectedText of
                     None \<Rightarrow> (Throws RangeError, w)
                   | Some found \<Rightarrow>
                       (let indices = splice_array found
                              (arrayIndexOf found (offsetAt (document editor) (start sel))) 1;
                            sels = indicesToSelections editor indices (length selectedText)
                        in if wholeWords
                           then (Returns, w\<lparr>activeTextEditor :=
                                   Some (set_selections editor (wholeWordSelections editor sels))\<rparr>)
                           else (Returns, w\<lparr>activeTextEditor :=
                                   Some (set_selections editor sels)\<rparr>)))))"

section \<open>A sample editor\<close>

text \<open>
  One editor to run the extension on concrete documents. It is not taken from the
  repository: it follows what the editor's interface documents, for a document whose
  lines end in a line feed. An offset or a position past the end is moved back to the
  end, the text of a range is the text between the offsets of its two ends, and a word
  is a maximal run of letters, digits and underscores that touches the position. The
  general statements below do not depend on it.
\<close>

fun splitLines :: "string \<Rightarrow> string list" where
  "splitLines [] = [[]]"
| "splitLines (c # cs) =
     (if c = CHR 0x0A then [] # splitLines cs
      else (case splitLines cs of [] \<Rightarrow> [[c]] | l # ls \<Rightarrow> (c # l) # ls))"

fun positionIn :: "string list \<Rightarrow> nat \<Rightarrow> nat \<Rightarrow> position" where
  "positionIn [] n offset = \<lparr>line = n, character = 0\<rparr>"
| "positionIn [l] n offset = \<lparr>line = n, character = min offset (length l)\<rparr>"
| "positionIn (l # l' # ls) n offset =
     (if offset \<le> length l then \<lparr>line = n, character = offset\<rparr>
      else positionIn (l' # ls) (Suc n) (offset - length l - 1))"

fun offsetIn :: "string list \<Rightarrow> nat \<Rightarrow> nat \<Rightarrow> nat" where
  "offsetIn [] n c = 0"
| "offsetIn [l] n c = (if n = 0 then min c (length l) else length l)"
| "offsetIn (l # l' # ls) n c =
     (if n = 0 then min c (length l) else length l + 1 + offsetIn (l' # ls) (n - 1) c)"

definition isWordChar :: "char \<Rightarrow> bool" where
  "isWordChar c \<longleftrightarrow>
     c \<in> set ''abcdefghijklmnopqrstuvwxyzABCDEFGHIJKLMNOPQRSTUVWXYZ0123456789_''"

definition wordRangeIn :: "string list \<Rightarrow> position \<Rightarrow> range option" where
  "wordRangeIn ls p =
     (let n = min (line p) (length ls - 1);
          l = (if ls = [] then [] else ls ! n);
          c = (if line p < length ls then min (character p) (length l) else length l);
          left = c - length (takeWhile isWordChar (rev (take c l)));
          right = c + length (takeWhile isWordChar (drop c l))
      in if left = right then None
         else Some \<lparr>start = \<lparr>line = n, character = left\<rparr>,
                     end_pos = \<lparr>line = n, character = right\<rparr>\<rparr>)"

definition sampleDocument :: "string \<Rightarrow> textDocument" where
  "sampleDocument text =
     \<lparr>getText = (\<lambda>r. case r of
                  None \<Rightarrow> text
                | Some r \<Rightarrow>
                    (let a = offsetIn (splitLines text) (line (start r)) (character (start r));
                         b = offsetIn (splitLines text) (line (end_pos r)) (character (end_pos r))
                     in take (b - a) (drop a text))),
      positionAt = (\<lambda>offset. positionIn (splitLines text) 0 (nat offset)),
      offsetAt = (\<lambda>p. int (offsetIn (splitLines text) (line p) (character p))),
      getWordRangeAtPosition = wordRangeIn (splitLines text)\<rparr>"

definition sampleEditor :: "string \<Rightarrow> range \<Rightarrow> textEditor" where
  "sampleEditor text sel =
     \<lparr>document = sampleDocument text, selection = sel, secondary = []\<rparr>"

definition sampleWindow :: "string \<Rightarrow> range \<Rightarrow> window" where
  "sampleWindow text sel = \<lparr>activeTextEditor = Some (sampleEditor text sel)\<rparr>"

definition span :: "nat \<Rightarrow> nat \<Rightarrow> nat \<Rightarrow> nat \<Rightarrow> range" where
  "span l c l' c' =
     \<lparr>start = \<lparr>line = l, character = c\<rparr>, end_pos = \<lparr>line = l', character = c'\<rparr>\<rparr>"

definition threeLines :: string where
  "threeLines = ''ab'' @ [CHR 0x0A] @ ''cd ab'' @ [CHR 0x0A] @ ''cd''"

text \<open>
  A second editor, for the case that the offset of the seed range is not among the
  offsets found: its document is the sample document, but its \<^verbatim>\<open>offsetAt\<close> counts the
  characters from one. No editor is known to do so; the source does not exclude it.
\<close>

definition skewedEditor :: "string \<Rightarrow> range \<Rightarrow> textEditor" where
  "skewedEditor text sel =
     \<lparr>document = (sampleDocument text)\<lparr>offsetAt := (\<lambda>p. offsetAt (sampleDocument text) p + 1)\<rparr>,
      selection = sel, secondary = []\<rparr>"

definition skewedWindow :: "string \<Rightarrow> range \<Rightarrow> window" where
  "skewedWindow text sel = \<lparr>activeTextEditor = Some (skewedEditor text sel)\<rparr>"

section \<open>The finder returns every occurrence\<close>

text \<open>
  An occurrence of a non-empty \<open>s\<close> at \<open>i\<close> lies inside the text.
\<close>

lemma occurrence_in_range:
  assumes ne: "s \<noteq> []" and eq: "take (length s) (drop i t) = s"
  shows "i + length s \<le> length t"
proof -
  have "length (take (length s) (drop i t)) = min (length s) (length t - i)" by simp
  with eq have "length s = min (length s) (length t - i)" by simp
  with ne show ?thesis by (cases s) auto
qed

text \<open>
  The scan from \<open>k\<close> either finds nothing, and then no occurrence from \<open>k\<close> on fits
  into the text, or it returns the first occurrence from \<open>k\<close> on.
\<close>

lemma stringIndexOf_cases:
  "(stringIndexOf t s k = - 1 \<and>
      (\<forall>i\<ge>k. take (length s) (drop i t) = s \<longrightarrow> length t < i + length s))
   \<or> (\<exists>j\<ge>k. stringIndexOf t s k = int j \<and> j + length s \<le> length t
        \<and> take (length s) (drop j t) = s
        \<and> (\<forall>i. k \<le> i \<and> i < j \<longrightarrow> take (length s) (drop i t) \<noteq> s))"
proof (induction t s k rule: stringIndexOf.induct)
  case (1 t s i)
  show ?case
  proof (cases "length t < i + length s")
    case True
    then show ?thesis by (subst stringIndexOf.simps) auto
  next
    case False
    note fits = this
    show ?thesis
    proof (cases "take (length s) (drop i t) = s")
      case True
      with fits show ?thesis by (subst stringIndexOf.simps) auto
    next
      case False
      from 1 [OF fits False] show ?thesis
      proof
        assume none: "stringIndexOf t s (Suc i) = - 1 \<and>
          (\<forall>m\<ge>Suc i. take (length s) (drop m t) = s \<longrightarrow> length t < m + length s)"
        have "\<forall>m\<ge>i. take (length s) (drop m t) = s \<longrightarrow> length t < m + length s"
          using none False by (metis Suc_leI le_neq_implies_less)
        with none fits False show ?thesis by (subst stringIndexOf.simps) auto
      next
        assume "\<exists>j\<ge>Suc i. stringIndexOf t s (Suc i) = int j \<and> j + length s \<le> length t
          \<and> take (length s) (drop j t) = s
          \<and> (\<forall>m. Suc i \<le> m \<and> m < j \<longrightarrow> take (length s) (drop m t) \<noteq> s)"
        then obtain j where j: "Suc i \<le> j" "stringIndexOf t s (Suc i) = int j"
          "j + length s \<le> length t" "take (length s) (drop j t) = s"
          "\<forall>m. Suc i \<le> m \<and> m < j \<longrightarrow> take (length s) (drop m t) \<noteq> s"
          by blast
        have "\<forall>m. i \<le> m \<and> m < j \<longrightarrow> take (length s) (drop m t) \<noteq> s"
          using j(5) False by (metis Suc_leI le_neq_implies_less)
        with j fits False have "i \<le> j \<and> stringIndexOf t s i = int j \<and> j + length s \<le> length t
          \<and> take (length s) (drop j t) = s
          \<and> (\<forall>m. i \<le> m \<and> m < j \<longrightarrow> take (length s) (drop m t) \<noteq> s)"
          by (subst stringIndexOf.simps) auto
        then show ?thesis by blast
      qed
    qed
  qed
qed

text \<open>
  The loop, entered with the result of a scan from \<open>k\<close>, appends the occurrences from
  \<open>k\<close> on to what it has. The distance from \<open>k\<close> to the end of the text shrinks with
  every round.
\<close>

lemma findAll_loop_from:
  assumes ne: "s \<noteq> []"
  shows "k \<le> length t \<Longrightarrow>
    findAll_loop t s (stringIndexOf t s k) acc =
      Some (acc @ map int (filter (\<lambda>i. take (length s) (drop i t) = s) [k..<length t]))"
proof (induction "length t - k" arbitrary: k acc rule: less_induct)
  case less
  let ?P = "\<lambda>i. take (length s) (drop i t) = s"
  from stringIndexOf_cases [of t s k] show ?case
  proof
    assume none: "stringIndexOf t s k = - 1 \<and> (\<forall>i\<ge>k. ?P i \<longrightarrow> length t < i + length s)"
    have "\<forall>i\<ge>k. \<not> ?P i"
    proof (intro allI impI notI)
      fix i assume "k \<le> i" and p: "?P i"
      with none have "length t < i + length s" by blast
      moreover from occurrence_in_range [OF ne p] have "i + length s \<le> length t" .
      ultimately show False by simp
    qed
    then have "filter ?P [k..<length t] = []" by (auto simp: filter_empty_conv)
    with none show ?thesis by (subst findAll_loop.simps) simp
  next
    assume "\<exists>j\<ge>k. stringIndexOf t s k = int j \<and> j + length s \<le> length t \<and> ?P j
        \<and> (\<forall>i. k \<le> i \<and> i < j \<longrightarrow> \<not> ?P i)"
    then obtain j where j: "k \<le> j" "stringIndexOf t s k = int j" "j + length s \<le> length t"
      "?P j" "\<forall>i. k \<le> i \<and> i < j \<longrightarrow> \<not> ?P i" by blast
    from ne j(3) have jlt: "j < length t" by (cases s) auto
    have split: "[k..<length t] = [k..<j] @ j # [Suc j..<length t]"
      using j(1) jlt by (metis le_add_diff_inverse less_imp_le_nat upt_add_eq_append upt_conv_Cons)
    have before: "filter ?P [k..<j] = []" using j(5) by (auto simp: filter_empty_conv)
    have found: "filter ?P [k..<length t] = j # filter ?P [Suc j..<length t]"
      unfolding split using before j(4) by simp
    have resume: "indexOf t s (int j + 1) = stringIndexOf t s (Suc j)"
      using jlt by (simp add: indexOf_def nat_add_distrib min_def)
    have rest: "findAll_loop t s (stringIndexOf t s (Suc j)) (acc @ [int j]) =
      Some ((acc @ [int j]) @ map int (filter ?P [Suc j..<length t]))"
      using less(1) [of "Suc j" "acc @ [int j]"] j(1) jlt by simp
    show ?thesis
      by (subst findAll_loop.simps) (simp add: j(2) resume rest found)
  qed
qed

lemma findAll_eq:
  "s \<noteq> [] \<Longrightarrow>
   findAll t s = Some (map int (filter (\<lambda>i. take (length s) (drop i t) = s) [0..<length t]))"
  using findAll_loop_from [of s 0 t "[]"] by (simp add: findAll_def indexOf_def)

text \<open>
  With an empty search string \<open>indexOf\<close> never answers \<open>-1\<close>, so the loop has no exit.
\<close>

lemma stringIndexOf_empty_search: "k \<le> length t \<Longrightarrow> stringIndexOf t [] k = int k"
  by (subst stringIndexOf.simps) simp

lemma indexOf_empty_search: "0 \<le> indexOf t [] p"
  by (simp add: indexOf_def stringIndexOf_empty_search)

lemma findAll_loop_empty_search:
  assumes ret: "findAll_loop t s index acc = Some r"
  shows "\<not> (s = [] \<and> 0 \<le> index)"
proof (rule findAll_loop.raw_induct
    [where P = "\<lambda>t s index acc r. \<not> (s = [] \<and> 0 \<le> index)", OF _ ret])
  fix f :: "string \<Rightarrow> string \<Rightarrow> int \<Rightarrow> int list \<Rightarrow> int list option"
  fix t s index acc r
  assume ih: "\<And>t s index acc r. f t s index acc = Some r \<Longrightarrow> \<not> (s = [] \<and> 0 \<le> index)"
    and step: "(if index \<noteq> - 1 then f t s (indexOf t s (index + 1)) (acc @ [index])
                else Some acc) = Some r"
  show "\<not> (s = [] \<and> 0 \<le> index)"
  proof
    assume a: "s = [] \<and> 0 \<le> index"
    with step have "f t s (indexOf t s (index + 1)) (acc @ [index]) = Some r" by simp
    from ih [OF this] a indexOf_empty_search [of t "index + 1"] show False by simp
  qed
qed

lemma findAll_empty_search: "findAll t [] = None"
proof (cases "findAll t []")
  case None
  then show ?thesis .
next
  case (Some r)
  then show ?thesis
    unfolding findAll_def using findAll_loop_empty_search indexOf_empty_search by blast
qed

lemma empty_search_keeps_pushing:
  "0 \<le> index \<Longrightarrow>
   \<exists>index' pushed. 0 \<le> index' \<and> length pushed = n
      \<and> findAll_loop t [] index indices = findAll_loop t [] index' (indices @ pushed)"
proof (induction n)
  case 0
  then show ?case by (intro exI [of _ index] exI [of _ "[]"]) simp
next
  case (Suc n)
  then obtain index' pushed where run: "0 \<le> index'" "length pushed = n"
    "findAll_loop t [] index indices = findAll_loop t [] index' (indices @ pushed)"
    by blast
  from run(1) have "findAll_loop t [] index' (indices @ pushed) =
      findAll_loop t [] (indexOf t [] (index' + 1)) (indices @ (pushed @ [index']))"
    by (subst findAll_loop.simps) simp
  with run indexOf_empty_search [of t "index' + 1"] show ?case
    by (intro exI [of _ "indexOf t [] (index' + 1)"] exI [of _ "pushed @ [index']"]) simp
qed

text \<open>
  What \<open>findAll\<close> returns has no offset twice.
\<close>

lemma findAll_distinct:
  assumes "findAll t s = Some found"
  shows "distinct found"
proof (cases "s = []")
  case True
  with assms show ?thesis by (simp add: findAll_empty_search)
next
  case False
  from findAll_eq [OF False, of t] assms
  have "found = map int (filter (\<lambda>i. take (length s) (drop i t) = s) [0..<length t])" by simp
  then show ?thesis by (simp add: distinct_map)
qed

text \<open>
  C1. For every text and every non-empty search string, \<open>findAll\<close> returns, and what it
  returns is the list, in increasing order, of all offsets \<open>i\<close> at which the text holds
  the search string (\<open>T[i : i + len(S)] = S\<close>); every such offset is below the length
  of the text, so none is left out. Occurrences that overlap are all in the list: the
  search resumes one past the start of a match. In particular \<open>findAll "aaa" "aa"\<close> is
  \<open>[0, 1]\<close> and \<open>findAll "abc" "xyz"\<close> is empty.
\<close>

theorem findAll_all_occurrences:
  assumes "search \<noteq> []"
  shows "findAll text search =
           Some (map int (filter (\<lambda>i. take (length search) (drop i text) = search)
                            [0..<length text]))
         \<and> (\<forall>i. take (length search) (drop i text) = search \<longrightarrow> i < length text)
         \<and> findAll ''aaa'' ''aa'' = Some [0, 1]
         \<and> findAll ''abc'' ''xyz'' = Some []"
proof (intro conjI allI impI)
  show "findAll text search =
      Some (map int (filter (\<lambda>i. take (length search) (drop i text) = search) [0..<length text]))"
    using assms by (rule findAll_eq)
next
  fix i assume "take (length search) (drop i text) = search"
  from occurrence_in_range [OF assms this] assms show "i < length text"
    by (cases search) auto
next
  show "findAll ''aaa'' ''aa'' = Some [0, 1]" by code_simp
next
  show "findAll ''abc'' ''xyz'' = Some []" by code_simp
qed

theorem findAll_all_occurrences_witness:
  "''he'' \<noteq> [] \<and> findAll ''hello world from here'' ''he'' = Some [0, 17]"
proof -
  have ne: "''he'' \<noteq> []" by simp
  have occ: "map int (filter (\<lambda>i. take (length ''he'') (drop i ''hello world from here'') = ''he'')
                [0..<length ''hello world from here'']) = [0, 17]"
    by code_simp
  from findAll_all_occurrences [OF ne, of "''hello world from here''"]
  have "findAll ''hello world from here'' ''he'' =
      Some (map int (filter (\<lambda>i. take (length ''he'') (drop i ''hello world from here'') = ''he'')
                [0..<length ''hello world from here'']))"
    by (rule conjunct1)
  with occ ne show ?thesis by (simp only: simp_thms)
qed

text \<open>
  C7. For every text and every non-empty search string, \<open>findAll\<close> returns offsets that
  are strictly increasing, and every one of them is a valid index:
  \<open>0 \<le> i \<le> len(T) - len(S)\<close>.
\<close>

theorem findAll_increasing_in_range:
  assumes "search \<noteq> []"
  shows "\<exists>offsets. findAll text search = Some offsets
           \<and> sorted_wrt (<) offsets
           \<and> (\<forall>i \<in> set offsets. 0 \<le> i \<and> i \<le> int (length text) - int (length search))"
proof -
  let ?P = "\<lambda>i. take (length search) (drop i text) = search"
  let ?offsets = "map int (filter ?P [0..<length text])"
  have "sorted_wrt (<) (filter ?P [0..<length text])"
    by (rule sorted_wrt_filter) (simp add: sorted_wrt_upt)
  then have inc: "sorted_wrt (<) ?offsets"
    by (simp add: sorted_wrt_map)
  have "\<forall>i \<in> set ?offsets. 0 \<le> i \<and> i \<le> int (length text) - int (length search)"
  proof
    fix i assume "i \<in> set ?offsets"
    then obtain n where n: "i = int n" "?P n" by auto
    from occurrence_in_range [OF assms n(2)] n(1)
    show "0 \<le> i \<and> i \<le> int (length text) - int (length search)" by simp
  qed
  with inc findAll_eq [OF assms, of "text"] show ?thesis by blast
qed

theorem findAll_increasing_in_range_witness:
  "''aa'' \<noteq> [] \<and> findAll ''aaaa'' ''aa'' = Some [0, 1, 2]
   \<and> sorted_wrt (<) [0, 1, 2 :: int]
   \<and> (\<exists>offsets. findAll ''aaaa'' ''aa'' = Some offsets \<and> sorted_wrt (<) offsets
        \<and> list_all (\<lambda>i. 0 \<le> i \<and> i \<le> int (length ''aaaa'') - int (length ''aa'')) offsets)"
proof -
  have ne: "''aa'' \<noteq> []" by simp
  have run: "findAll ''aaaa'' ''aa'' = Some [0, 1, 2]" by code_simp
  from findAll_increasing_in_range [OF ne, of "''aaaa''"]
  have "\<exists>offsets. findAll ''aaaa'' ''aa'' = Some offsets \<and> sorted_wrt (<) offsets
        \<and> list_all (\<lambda>i. 0 \<le> i \<and> i \<le> int (length ''aaaa'') - int (length ''aa'')) offsets"
    by (simp only: list_all_iff)
  with ne run show ?thesis by simp
qed

section \<open>Removing the original selection\<close>

lemma arrayIndexOf_loop_found:
  "x \<in> set xs \<Longrightarrow> arrayIndexOf_loop xs x k = int (k + length (takeWhile (\<lambda>y. y \<noteq> x) xs))"
  by (induction xs arbitrary: k) auto

lemma arrayIndexOf_loop_absent: "x \<notin> set xs \<Longrightarrow> arrayIndexOf_loop xs x k = - 1"
  by (induction xs arbitrary: k) auto

lemma arrayIndexOf_first:
  assumes "x \<notin> set pre"
  shows "arrayIndexOf (pre @ x # post) x = int (length pre)"
proof -
  have "takeWhile (\<lambda>y. y \<noteq> x) (pre @ x # post) = pre"
    using assms by (induction pre) auto
  then show ?thesis
    by (simp add: arrayIndexOf_def arrayIndexOf_loop_found)
qed

lemma splice_one_at: "splice_array (pre @ x # post) (int (length pre)) 1 = pre @ post"
proof -
  have "nat (int (length pre) + 1) = Suc (length pre)" by simp
  then show ?thesis by (simp add: splice_array_def Let_def min_def)
qed

lemma splice_minus_one: "xs \<noteq> [] \<Longrightarrow> splice_array xs (- 1) 1 = butlast xs"
proof -
  assume ne: "xs \<noteq> []"
  then have len: "0 < length xs" by simp
  then have a: "max (int (length xs) + - 1) 0 = int (length xs) - 1" by simp
  have b: "nat (int (length xs) - 1) = length xs - 1" by simp
  have c: "min 1 (int (length xs) - (int (length xs) - 1)) = 1" by simp
  have "splice_array xs (- 1) 1 = take (length xs - 1) xs @ drop (length xs) xs"
    using len by (simp add: splice_array_def Let_def a b c nat_diff_distrib)
  then show ?thesis by (simp add: butlast_conv_take)
qed

text \<open>
  The removal step \<^verbatim>\<open>indices.splice(indices.indexOf(offset), 1)\<close> on a list that holds
  the offset, and on one that does not.
\<close>

lemma splice_present:
  assumes "x \<notin> set pre"
  shows "splice_array (pre @ x # post) (arrayIndexOf (pre @ x # post) x) 1 = pre @ post"
  by (simp only: arrayIndexOf_first [OF assms] splice_one_at)

lemma splice_absent:
  assumes "xs \<noteq> []" and "x \<notin> set xs"
  shows "arrayIndexOf xs x = - 1" and "splice_array xs (arrayIndexOf xs x) 1 = butlast xs"
proof -
  show idx: "arrayIndexOf xs x = - 1"
    using assms(2) by (simp add: arrayIndexOf_def arrayIndexOf_loop_absent)
  show "splice_array xs (arrayIndexOf xs x) 1 = butlast xs"
    unfolding idx using assms(1) by (rule splice_minus_one)
qed

section \<open>The command\<close>

text \<open>
  A selection built from a position and its translation to the right starts at that
  position: the constructor never swaps the two.
\<close>

lemma indicesToSelections_each:
  "indicesToSelections editor indices len =
     map (\<lambda>i. \<lparr>start = positionAt (document editor) i,
                end_pos = translate (positionAt (document editor) i) 0 len\<rparr>) indices"
  by (auto simp: indicesToSelections_def Selection_def isBefore_def translate_def Let_def)

text \<open>
  What the setter of \<^verbatim>\<open>selections\<close> leaves in the editor.
\<close>

lemma document_set_selections: "document (set_selections editor value) = document editor"
  by (cases "value") (simp_all add: set_selections_def)

lemma selections_set_selections:
  "selections (set_selections editor value) =
     (if value = [] then [Selection \<lparr>line = 0, character = 0\<rparr> \<lparr>line = 0, character = 0\<rparr>]
      else value)"
  by (cases "value") (simp_all add: set_selections_def selections_def)

lemma selection_set_selections_empty:
  "selection (set_selections editor []) =
     \<lparr>start = \<lparr>line = 0, character = 0\<rparr>, end_pos = \<lparr>line = 0, character = 0\<rparr>\<rparr>"
  by (simp add: set_selections_def Selection_def isBefore_def)

lemma isEqual_iff: "isEqual r s \<longleftrightarrow> r = s"
  by (cases r, cases s) (simp add: isEqual_def)

lemma wholeWordSelections_eq:
  "wholeWordSelections editor sels =
     filter (\<lambda>s. getWordRangeAtPosition (document editor) (start s) = Some s) sels"
proof -
  have "(\<lambda>s. case getWordRangeAtPosition (document editor) (start s) of
                None \<Rightarrow> False | Some r \<Rightarrow> isEqual r s)
        = (\<lambda>s. getWordRangeAtPosition (document editor) (start s) = Some s)"
    by (auto simp: fun_eq_iff isEqual_iff split: option.splits)
  then show ?thesis by (simp add: wholeWordSelections_def)
qed

text \<open>
  The command on an editor with a seed range: when the finder returns, when the seed
  text is empty, and the two early returns.
\<close>

lemma selectAllOther_run:
  assumes "activeTextEditor w = Some editor"
    and "getSelection editor = (Some sel, wholeWords)"
    and "findAll (getText (document editor) None) (getText (document editor) (Some sel)) = Some found"
  shows "selectAllOther w =
    (Returns, w\<lparr>activeTextEditor := Some (set_selections editor
      (let sels = indicesToSelections editor
             (splice_array found (arrayIndexOf found (offsetAt (document editor) (start sel))) 1)
             (length (getText (document editor) (Some sel)))
       in if wholeWords then wholeWordSelections editor sels else sels))\<rparr>)"
  using assms by (cases wholeWords) (simp_all add: selectAllOther_def Let_def)

lemma selectAllOther_empty_seed:
  assumes "activeTextEditor w = Some editor"
    and "getSelection editor = (Some sel, wholeWords)"
    and "getText (document editor) (Some sel) = []"
  shows "selectAllOther w = (Throws RangeError, w)"
  using assms by (simp add: selectAllOther_def Let_def findAll_empty_search)

lemma selectAllOther_no_editor:
  assumes "activeTextEditor w = None"
  shows "selectAllOther w = (Returns, w)"
  using assms by (simp add: selectAllOther_def)

lemma selectAllOther_no_seed:
  assumes "activeTextEditor w = Some editor"
    and "isEmpty (selection editor)"
    and "getWordRangeAtPosition (document editor) (start (selection editor)) = None"
  shows "selectAllOther w = (Returns, w)"
  using assms by (simp add: selectAllOther_def getSelection_def)

lemma selectAllOther_single:
  assumes "activeTextEditor w = Some editor"
    and "getSelection editor = (Some sel, wholeWords)"
    and "findAll (getText (document editor) None) (getText (document editor) (Some sel)) = Some [i]"
  shows "selectAllOther w = (Returns, w\<lparr>activeTextEditor := Some (set_selections editor [])\<rparr>)"
proof -
  have "splice_array [i] (arrayIndexOf [i] (offsetAt (document editor) (start sel))) 1 = []"
    by (simp add: splice_array_def arrayIndexOf_def Let_def)
  then show ?thesis
    unfolding selectAllOther_run [OF assms]
    by (simp add: indicesToSelections_def wholeWordSelections_def)
qed

text \<open>
  C3. Let the command run on an editor with a seed range, and let the start offset of
  the seed range be among the offsets the finder returns. Then the command removes
  exactly one entry from them, the first one equal to that offset: the offsets split
  into the entries before it, none of which equals the offset, and the entries after
  it; the removal step leaves both parts as they are, and the selections the command
  assigns are built from exactly these two parts, in their order.
\<close>

theorem removal_of_seed_offset:
  assumes "activeTextEditor w = Some editor"
    and "getSelection editor = (Some sel, wholeWords)"
    and "findAll (getText (document editor) None) (getText (document editor) (Some sel)) = Some found"
    and "offsetAt (document editor) (start sel) \<in> set found"
  shows "\<exists>pre post.
           found = pre @ offsetAt (document editor) (start sel) # post
         \<and> offsetAt (document editor) (start sel) \<notin> set pre
         \<and> splice_array found (arrayIndexOf found (offsetAt (document editor) (start sel))) 1
             = pre @ post
         \<and> selectAllOther w =
             (Returns, w\<lparr>activeTextEditor := Some (set_selections editor
                (let sels = indicesToSelections editor (pre @ post)
                              (length (getText (document editor) (Some sel)))
                 in if wholeWords then wholeWordSelections editor sels else sels))\<rparr>)"
proof -
  let ?off = "offsetAt (document editor) (start sel)"
  from split_list_first [OF assms(4)]
  obtain pre post where sp: "found = pre @ ?off # post" "?off \<notin> set pre" by blast
  have removed: "splice_array found (arrayIndexOf found ?off) 1 = pre @ post"
    unfolding sp(1) by (rule splice_present [OF sp(2)])
  have "selectAllOther w =
      (Returns, w\<lparr>activeTextEditor := Some (set_selections editor
         (let sels = indicesToSelections editor (pre @ post)
                       (length (getText (document editor) (Some sel)))
          in if wholeWords then wholeWordSelections editor sels else sels))\<rparr>)"
    unfolding selectAllOther_run [OF assms(1-3)] removed ..
  with sp removed show ?thesis by blast
qed

theorem removal_of_seed_offset_witness:
  "offsetAt (document (sampleEditor ''hello world, hello again'' (span 0 16 0 18))) (start (span 0 16 0 18))
     \<in> set [3, 16]
   \<and> selectAllOther (sampleWindow ''hello world, hello again'' (span 0 16 0 18)) =
       (Returns, (sampleWindow ''hello world, hello again'' (span 0 16 0 18))
          \<lparr>activeTextEditor := Some (set_selections
              (sampleEditor ''hello world, hello again'' (span 0 16 0 18)) [span 0 3 0 5])\<rparr>)"
proof -
  let ?E = "sampleEditor ''hello world, hello again'' (span 0 16 0 18)"
  let ?W = "sampleWindow ''hello world, hello again'' (span 0 16 0 18)"
  have ed: "activeTextEditor ?W = Some ?E" by (simp add: sampleWindow_def)
  have seed: "getSelection ?E = (Some (span 0 16 0 18), False)" by code_simp
  have found: "findAll (getText (document ?E) None) (getText (document ?E) (Some (span 0 16 0 18)))
      = Some [3, 16]" by code_simp
  have off: "offsetAt (document ?E) (start (span 0 16 0 18)) = 16" by code_simp
  have present: "offsetAt (document ?E) (start (span 0 16 0 18)) \<in> set [3, 16]"
    unfolding off by simp
  from removal_of_seed_offset [OF ed seed found present]
  obtain pre post where sp: "[3, 16] = pre @ (16::int) # post" "(16::int) \<notin> set pre"
    and run: "selectAllOther ?W =
      (Returns, ?W\<lparr>activeTextEditor := Some (set_selections ?E
         (let sels = indicesToSelections ?E (pre @ post)
                       (length (getText (document ?E) (Some (span 0 16 0 18))))
          in if False then wholeWordSelections ?E sels else sels))\<rparr>)"
    unfolding off by blast
  from sp have pp: "pre = [3] \<and> post = []"
    by (cases pre; cases "tl pre") auto
  have built: "(let sels = indicesToSelections ?E ([3] @ [])
                       (length (getText (document ?E) (Some (span 0 16 0 18))))
          in if False then wholeWordSelections ?E sels else sels) = [span 0 3 0 5]"
    by code_simp
  from run pp have "selectAllOther ?W =
      (Returns, ?W\<lparr>activeTextEditor := Some (set_selections ?E [span 0 3 0 5])\<rparr>)"
    unfolding built [symmetric] by simp
  with present show ?thesis by (intro conjI)
qed

text \<open>
  C10. Let the command run on an editor with a seed range, and let the finder return a
  list of offsets that is not empty and does not hold the start offset of the seed
  range. Then \<^verbatim>\<open>indexOf\<close> answers \<open>-1\<close> and the removal step removes exactly the last
  offset of the list: the command does not throw, the list does not stay as it was, and
  the selections the command assigns are built from the list without its last entry.
  That entry is an occurrence other than the seed, and it is not among the offsets that
  are left.
\<close>

theorem absent_seed_offset_drops_last:
  assumes "activeTextEditor w = Some editor"
    and "getSelection editor = (Some sel, wholeWords)"
    and "findAll (getText (document editor) None) (getText (document editor) (Some sel)) = Some found"
    and "found \<noteq> []"
    and "offsetAt (document editor) (start sel) \<notin> set found"
  shows "arrayIndexOf found (offsetAt (document editor) (start sel)) = - 1
       \<and> splice_array found (arrayIndexOf found (offsetAt (document editor) (start sel))) 1
           = butlast found
       \<and> found = butlast found @ [last found]
       \<and> last found \<notin> set (butlast found)
       \<and> last found \<noteq> offsetAt (document editor) (start sel)
       \<and> selectAllOther w =
           (Returns, w\<lparr>activeTextEditor := Some (set_selections editor
              (let sels = indicesToSelections editor (butlast found)
                            (length (getText (document editor) (Some sel)))
               in if wholeWords then wholeWordSelections editor sels else sels))\<rparr>)"
proof -
  let ?off = "offsetAt (document editor) (start sel)"
  note removed = splice_absent [OF assms(4,5)]
  have whole: "found = butlast found @ [last found]" using assms(4) by simp
  from findAll_distinct [OF assms(3)] have "distinct (butlast found @ [last found])"
    using whole by simp
  then have dropped: "last found \<notin> set (butlast found)" by simp
  have other: "last found \<noteq> ?off" using assms(4,5) last_in_set by metis
  have "selectAllOther w =
      (Returns, w\<lparr>activeTextEditor := Some (set_selections editor
         (let sels = indicesToSelections editor (butlast found)
                       (length (getText (document editor) (Some sel)))
          in if wholeWords then wholeWordSelections editor sels else sels))\<rparr>)"
    unfolding selectAllOther_run [OF assms(1-3)] removed(2) ..
  with removed whole dropped other show ?thesis by (intro conjI)
qed

theorem absent_seed_offset_drops_last_witness:
  "findAll ''ab ab ab'' ''ab'' = Some [0, 3, 6]
   \<and> offsetAt (document (skewedEditor ''ab ab ab'' (span 0 0 0 2))) (start (span 0 0 0 2)) = 1
   \<and> selectAllOther (skewedWindow ''ab ab ab'' (span 0 0 0 2)) =
       (Returns, (skewedWindow ''ab ab ab'' (span 0 0 0 2))
          \<lparr>activeTextEditor := Some (set_selections (skewedEditor ''ab ab ab'' (span 0 0 0 2))
              [span 0 0 0 2, span 0 3 0 5])\<rparr>)"
proof -
  let ?E = "skewedEditor ''ab ab ab'' (span 0 0 0 2)"
  let ?W = "skewedWindow ''ab ab ab'' (span 0 0 0 2)"
  have occ: "findAll ''ab ab ab'' ''ab'' = Some [0, 3, 6]" by code_simp
  have ed: "activeTextEditor ?W = Some ?E" by (simp add: skewedWindow_def)
  have seed: "getSelection ?E = (Some (span 0 0 0 2), False)" by code_simp
  have found: "findAll (getText (document ?E) None) (getText (document ?E) (Some (span 0 0 0 2)))
      = Some [0, 3, 6]" by code_simp
  have off: "offsetAt (document ?E) (start (span 0 0 0 2)) = 1" by code_simp
  have ne: "[0, 3, 6 :: int] \<noteq> []" by simp
  have absent: "offsetAt (document ?E) (start (span 0 0 0 2)) \<notin> set [0, 3, 6]"
    unfolding off by simp
  have built: "(let sels = indicesToSelections ?E (butlast [0, 3, 6])
                       (length (getText (document ?E) (Some (span 0 0 0 2))))
          in if False then wholeWordSelections ?E sels else sels) = [span 0 0 0 2, span 0 3 0 5]"
    by code_simp
  from absent_seed_offset_drops_last [OF ed seed found ne absent]
  have "selectAllOther ?W =
      (Returns, ?W\<lparr>activeTextEditor := Some (set_selections ?E [span 0 0 0 2, span 0 3 0 5])\<rparr>)"
    unfolding built by blast
  with occ off show ?thesis by (intro conjI)
qed

text \<open>
  C4. Let the command run on an editor with a seed range, and let \<open>built\<close> be the ranges
  built from the offsets that are left after the removal step. With the whole-word
  flag set, the array assigned to the editor's selections holds exactly those ranges of
  \<open>built\<close>, in their order, that equal the word range the editor reports at their
  start position (a range where the editor reports no word, or another range, is
  dropped). With the flag not set, the array assigned is \<open>built\<close> itself. The editor
  then holds what its setter stores for that array: the array, or the one selection at
  line 0, character 0 when the array is empty.
\<close>

theorem wholeWords_filter:
  assumes "activeTextEditor w = Some editor"
    and "getSelection editor = (Some sel, wholeWords)"
    and "findAll (getText (document editor) None) (getText (document editor) (Some sel)) = Some found"
  shows "let built = indicesToSelections editor
               (splice_array found (arrayIndexOf found (offsetAt (document editor) (start sel))) 1)
               (length (getText (document editor) (Some sel)));
             kept = (if wholeWords
                     then filter (\<lambda>s. getWordRangeAtPosition (document editor) (start s) = Some s) built
                     else built)
         in \<exists>editor'. selectAllOther w = (Returns, w\<lparr>activeTextEditor := Some editor'\<rparr>)
              \<and> editor' = set_selections editor kept
              \<and> document editor' = document editor
              \<and> selections editor' =
                  (if kept = []
                   then [Selection \<lparr>line = 0, character = 0\<rparr> \<lparr>line = 0, character = 0\<rparr>]
                   else kept)"
proof -
  let ?built = "indicesToSelections editor
      (splice_array found (arrayIndexOf found (offsetAt (document editor) (start sel))) 1)
      (length (getText (document editor) (Some sel)))"
  let ?kept = "if wholeWords
    then filter (\<lambda>s. getWordRangeAtPosition (document editor) (start s) = Some s) ?built
    else ?built"
  have "selectAllOther w = (Returns, w\<lparr>activeTextEditor := Some (set_selections editor ?kept)\<rparr>)"
    unfolding selectAllOther_run [OF assms] wholeWordSelections_eq Let_def ..
  moreover have "document (set_selections editor ?kept) = document editor"
    by (rule document_set_selections)
  moreover have "selections (set_selections editor ?kept) =
      (if ?kept = [] then [Selection \<lparr>line = 0, character = 0\<rparr> \<lparr>line = 0, character = 0\<rparr>]
       else ?kept)"
    by (rule selections_set_selections)
  ultimately show ?thesis unfolding Let_def by blast
qed

theorem wholeWords_filter_witness:
  "(\<exists>editor'. selectAllOther (sampleWindow ''hello world world worldly'' (span 0 7 0 7)) =
        (Returns, (sampleWindow ''hello world world worldly'' (span 0 7 0 7))\<lparr>activeTextEditor := Some editor'\<rparr>)
      \<and> document editor' = document (sampleEditor ''hello world world worldly'' (span 0 7 0 7))
      \<and> selections editor' = [span 0 12 0 17])
   \<and> (\<exists>editor'. selectAllOther (sampleWindow ''hello world, hello again'' (span 0 3 0 5)) =
        (Returns, (sampleWindow ''hello world, hello again'' (span 0 3 0 5))\<lparr>activeTextEditor := Some editor'\<rparr>)
      \<and> document editor' = document (sampleEditor ''hello world, hello again'' (span 0 3 0 5))
      \<and> selections editor' = [span 0 16 0 18])"
proof -
  let ?E = "sampleEditor ''hello world world worldly'' (span 0 7 0 7)"
  let ?W = "sampleWindow ''hello world world worldly'' (span 0 7 0 7)"
  have ed: "activeTextEditor ?W = Some ?E" by (simp add: sampleWindow_def)
  have seed: "getSelection ?E = (Some (span 0 6 0 11), True)" by code_simp
  have found: "findAll (getText (document ?E) None) (getText (document ?E) (Some (span 0 6 0 11)))
      = Some [6, 12, 18]" by code_simp
  have kept: "(if True
      then filter (\<lambda>s. getWordRangeAtPosition (document ?E) (start s) = Some s)
        (indicesToSelections ?E
          (splice_array [6, 12, 18]
             (arrayIndexOf [6, 12, 18] (offsetAt (document ?E) (start (span 0 6 0 11)))) 1)
          (length (getText (document ?E) (Some (span 0 6 0 11)))))
      else indicesToSelections ?E
          (splice_array [6, 12, 18]
             (arrayIndexOf [6, 12, 18] (offsetAt (document ?E) (start (span 0 6 0 11)))) 1)
          (length (getText (document ?E) (Some (span 0 6 0 11))))) = [span 0 12 0 17]"
    by code_simp
  have words: "\<exists>editor'. selectAllOther ?W = (Returns, ?W\<lparr>activeTextEditor := Some editor'\<rparr>)
      \<and> document editor' = document ?E \<and> selections editor' = [span 0 12 0 17]"
    using wholeWords_filter [OF ed seed found] unfolding Let_def kept by auto
  let ?E' = "sampleEditor ''hello world, hello again'' (span 0 3 0 5)"
  let ?W' = "sampleWindow ''hello world, hello again'' (span 0 3 0 5)"
  have ed': "activeTextEditor ?W' = Some ?E'" by (simp add: sampleWindow_def)
  have seed': "getSelection ?E' = (Some (span 0 3 0 5), False)" by code_simp
  have found': "findAll (getText (document ?E') None) (getText (document ?E') (Some (span 0 3 0 5)))
      = Some [3, 16]" by code_simp
  have kept': "(if False
      then filter (\<lambda>s. getWordRangeAtPosition (document ?E') (start s) = Some s)
        (indicesToSelections ?E'
          (splice_array [3, 16]
             (arrayIndexOf [3, 16] (offsetAt (document ?E') (start (span 0 3 0 5)))) 1)
          (length (getText (document ?E') (Some (span 0 3 0 5)))))
      else indicesToSelections ?E'
          (splice_array [3, 16]
             (arrayIndexOf [3, 16] (offsetAt (document ?E') (start (span 0 3 0 5)))) 1)
          (length (getText (document ?E') (Some (span 0 3 0 5))))) = [span 0 16 0 18]"
    by code_simp
  have parts: "\<exists>editor'. selectAllOther ?W' = (Returns, ?W'\<lparr>activeTextEditor := Some editor'\<rparr>)
      \<and> document editor' = document ?E' \<and> selections editor' = [span 0 16 0 18]"
    using wholeWords_filter [OF ed' seed' found'] unfolding Let_def kept' by auto
  show ?thesis by (rule conjI [OF words parts])
qed

text \<open>
  C5. The seed of the command: when the current selection is not empty, the seed range
  is the current selection and the whole-word flag is false; when it is empty, the seed
  range is the word range the editor reports at the caret (the start of the empty
  selection) and the flag is true; and when the selection is empty and the editor
  reports no word at the caret, the command returns with the window as it was.
\<close>

theorem seed_determination:
  "(\<not> isEmpty (selection editor) \<longrightarrow>
       getSelection editor = (Some (selection editor), False))
   \<and> (isEmpty (selection editor) \<longrightarrow>
       getSelection editor =
         (getWordRangeAtPosition (document editor) (start (selection editor)), True))
   \<and> (activeTextEditor w = Some editor \<and> isEmpty (selection editor)
        \<and> getWordRangeAtPosition (document editor) (start (selection editor)) = None \<longrightarrow>
       selectAllOther w = (Returns, w))"
  by (simp add: getSelection_def selectAllOther_no_seed)

theorem seed_determination_witness:
  "getSelection (sampleEditor ''hello world'' (span 0 3 0 5)) = (Some (span 0 3 0 5), False)
   \<and> getSelection (sampleEditor ''hello world'' (span 0 7 0 7)) = (Some (span 0 6 0 11), True)
   \<and> selectAllOther (sampleWindow ''hello  world'' (span 0 6 0 6))
       = (Returns, sampleWindow ''hello  world'' (span 0 6 0 6))"
proof -
  let ?A = "sampleEditor ''hello world'' (span 0 3 0 5)"
  have "\<not> isEmpty (selection ?A)" by code_simp
  with seed_determination [of ?A]
  have "getSelection ?A = (Some (selection ?A), False)" by blast
  moreover have "selection ?A = span 0 3 0 5" by (simp add: sampleEditor_def)
  ultimately have a: "getSelection ?A = (Some (span 0 3 0 5), False)" by simp
  let ?B = "sampleEditor ''hello world'' (span 0 7 0 7)"
  have "isEmpty (selection ?B)" by code_simp
  with seed_determination [of ?B]
  have "getSelection ?B = (getWordRangeAtPosition (document ?B) (start (selection ?B)), True)"
    by blast
  moreover have "getWordRangeAtPosition (document ?B) (start (selection ?B)) = Some (span 0 6 0 11)"
    by code_simp
  ultimately have b: "getSelection ?B = (Some (span 0 6 0 11), True)" by simp
  let ?C = "sampleEditor ''hello  world'' (span 0 6 0 6)"
  let ?W = "sampleWindow ''hello  world'' (span 0 6 0 6)"
  have "activeTextEditor ?W = Some ?C" by (simp add: sampleWindow_def)
  moreover have "isEmpty (selection ?C)" by code_simp
  moreover have "getWordRangeAtPosition (document ?C) (start (selection ?C)) = None" by code_simp
  ultimately have c: "selectAllOther ?W = (Returns, ?W)"
    using seed_determination [of ?C ?W] by blast
  show ?thesis by (rule conjI [OF a conjI [OF b c]])
qed

section \<open>A seed text that occurs once\<close>

text \<open>
  C9, as claimed, fails in its first half. In the sample editor holding
  \<^verbatim>\<open>hello world\<close>, with the caret in \<^verbatim>\<open>world\<close>, the seed text occurs once. The command
  returns and assigns the empty array, and the editor then holds one selection, the
  caret at line 0, character 0: its selections are not empty.
\<close>

theorem unique_seed_counterexample:
  "findAll ''hello world'' ''world'' = Some [6]
   \<and> selectAllOther (sampleWindow ''hello world'' (span 0 8 0 8)) =
       (Returns, (sampleWindow ''hello world'' (span 0 8 0 8))
          \<lparr>activeTextEditor := Some (set_selections (sampleEditor ''hello world'' (span 0 8 0 8)) [])\<rparr>)
   \<and> selections (set_selections (sampleEditor ''hello world'' (span 0 8 0 8)) []) = [span 0 0 0 0]
   \<and> selections (set_selections (sampleEditor ''hello world'' (span 0 8 0 8)) []) \<noteq> []"
proof -
  let ?E = "sampleEditor ''hello world'' (span 0 8 0 8)"
  let ?W = "sampleWindow ''hello world'' (span 0 8 0 8)"
  have once: "findAll ''hello world'' ''world'' = Some [6]" by code_simp
  have ed: "activeTextEditor ?W = Some ?E" by (simp add: sampleWindow_def)
  have seed: "getSelection ?E = (Some (span 0 6 0 11), True)" by code_simp
  have found: "findAll (getText (document ?E) None) (getText (document ?E) (Some (span 0 6 0 11)))
      = Some [6]" by code_simp
  have run: "selectAllOther ?W = (Returns, ?W\<lparr>activeTextEditor := Some (set_selections ?E [])\<rparr>)"
    by (rule selectAllOther_single [OF ed seed found])
  have stored: "selections (set_selections ?E []) = [span 0 0 0 0]"
    by (simp add: selections_set_selections Selection_def isBefore_def span_def)
  then have "selections (set_selections ?E []) \<noteq> []" by simp
  with once run stored show ?thesis by (intro conjI)
qed

text \<open>
  C9, amended. When the seed text occurs exactly once in the document, that is, when
  the finder returns a single offset, the command returns normally, which is not an
  error, and the array it assigns to the editor's selections is empty. The editor
  stores the single empty selection at line 0, character 0 in its place, so afterwards
  its selections are that one caret, which is also its primary selection, and not an
  empty set.
\<close>

theorem unique_seed_leaves_one_caret:
  assumes "activeTextEditor w = Some editor"
    and "getSelection editor = (Some sel, wholeWords)"
    and "findAll (getText (document editor) None) (getText (document editor) (Some sel)) = Some [i]"
  shows "\<exists>editor'. selectAllOther w = (Returns, w\<lparr>activeTextEditor := Some editor'\<rparr>)
           \<and> editor' = set_selections editor []
           \<and> document editor' = document editor
           \<and> selections editor' =
               [\<lparr>start = \<lparr>line = 0, character = 0\<rparr>, end_pos = \<lparr>line = 0, character = 0\<rparr>\<rparr>]
           \<and> selection editor' =
               \<lparr>start = \<lparr>line = 0, character = 0\<rparr>, end_pos = \<lparr>line = 0, character = 0\<rparr>\<rparr>"
proof -
  have stored: "selections (set_selections editor []) =
      [\<lparr>start = \<lparr>line = 0, character = 0\<rparr>, end_pos = \<lparr>line = 0, character = 0\<rparr>\<rparr>]"
    by (simp add: selections_set_selections Selection_def isBefore_def)
  from selectAllOther_single [OF assms] document_set_selections [of editor "[]"]
    stored selection_set_selections_empty [of editor]
  show ?thesis by blast
qed

theorem unique_seed_leaves_one_caret_witness:
  "\<exists>editor'. selectAllOther (sampleWindow ''hello world, hello'' (span 0 6 0 11)) =
       (Returns, (sampleWindow ''hello world, hello'' (span 0 6 0 11))\<lparr>activeTextEditor := Some editor'\<rparr>)
     \<and> editor' = set_selections (sampleEditor ''hello world, hello'' (span 0 6 0 11)) []
     \<and> document editor' = document (sampleEditor ''hello world, hello'' (span 0 6 0 11))
     \<and> selections editor' =
         [\<lparr>start = \<lparr>line = 0, character = 0\<rparr>, end_pos = \<lparr>line = 0, character = 0\<rparr>\<rparr>]
     \<and> selection editor' =
         \<lparr>start = \<lparr>line = 0, character = 0\<rparr>, end_pos = \<lparr>line = 0, character = 0\<rparr>\<rparr>"
proof -
  let ?E = "sampleEditor ''hello world, hello'' (span 0 6 0 11)"
  let ?W = "sampleWindow ''hello world, hello'' (span 0 6 0 11)"
  have ed: "activeTextEditor ?W = Some ?E" by (simp add: sampleWindow_def)
  have seed: "getSelection ?E = (Some (span 0 6 0 11), False)" by code_simp
  have found: "findAll (getText (document ?E) None) (getText (document ?E) (Some (span 0 6 0 11)))
      = Some [6]" by code_simp
  show ?thesis by (rule unique_seed_leaves_one_caret [OF ed seed found])
qed

section \<open>An empty seed text\<close>

text \<open>
  C6, as claimed, fails. The source has no test of the seed text between
  \<^verbatim>\<open>getText(selection)\<close> and the call of \<^verbatim>\<open>findAll\<close>. In the sample editor holding
  \<^verbatim>\<open>ab\<close>, a selection from column 5 to column 8 is not empty, and the text the document
  gives for it is empty, both ends being moved back to the end of the line. The command
  is then not a silent no-op: the finder is run on the empty string, its loop has no
  exit, and the command ends by the \<^verbatim>\<open>RangeError\<close> of \<^verbatim>\<open>push\<close>.
\<close>

theorem empty_seed_text_counterexample:
  "activeTextEditor (sampleWindow ''ab'' (span 0 5 0 8)) = Some (sampleEditor ''ab'' (span 0 5 0 8))
   \<and> getSelection (sampleEditor ''ab'' (span 0 5 0 8)) = (Some (span 0 5 0 8), False)
   \<and> getText (document (sampleEditor ''ab'' (span 0 5 0 8))) (Some (span 0 5 0 8)) = []
   \<and> findAll (getText (document (sampleEditor ''ab'' (span 0 5 0 8))) None) [] = None
   \<and> selectAllOther (sampleWindow ''ab'' (span 0 5 0 8)) =
       (Throws RangeError, sampleWindow ''ab'' (span 0 5 0 8))"
proof -
  let ?E = "sampleEditor ''ab'' (span 0 5 0 8)"
  let ?W = "sampleWindow ''ab'' (span 0 5 0 8)"
  have ed: "activeTextEditor ?W = Some ?E" by (simp add: sampleWindow_def)
  have seed: "getSelection ?E = (Some (span 0 5 0 8), False)" by code_simp
  have empty: "getText (document ?E) (Some (span 0 5 0 8)) = []" by code_simp
  have loop: "findAll (getText (document ?E) None) [] = None" by (rule findAll_empty_search)
  have "selectAllOther ?W = (Throws RangeError, ?W)"
    by (rule selectAllOther_empty_seed [OF ed seed empty])
  with ed seed empty loop show ?thesis by (intro conjI)
qed

text \<open>
  C6, amended. The command does not check the seed text: with an editor and a seed
  range it runs the finder on the seed text as it is. When the seed text is empty the
  finder is called with the empty search string; its loop has no exit and ends when
  \<^verbatim>\<open>push\<close> throws \<^verbatim>\<open>RangeError\<close>, the exception leaves the command, and the window is as
  it was. When the seed text is not empty the finder returns its offsets and the
  command returns normally, having assigned to the editor's selections the ranges built
  from the offsets left after the removal step, filtered to whole words when the flag
  is set.
\<close>

theorem seed_text_not_guarded:
  assumes "activeTextEditor w = Some editor"
    and "getSelection editor = (Some sel, wholeWords)"
  shows "(getText (document editor) (Some sel) = [] \<longrightarrow>
            findAll (getText (document editor) None) (getText (document editor) (Some sel)) = None
            \<and> selectAllOther w = (Throws RangeError, w))
       \<and> (getText (document editor) (Some sel) \<noteq> [] \<longrightarrow>
            (\<exists>found.
               findAll (getText (document editor) None) (getText (document editor) (Some sel)) = Some found
               \<and> selectAllOther w =
                   (Returns, w\<lparr>activeTextEditor := Some (set_selections editor
                      (let sels = indicesToSelections editor
                             (splice_array found
                                (arrayIndexOf found (offsetAt (document editor) (start sel))) 1)
                             (length (getText (document editor) (Some sel)))
                       in if wholeWords then wholeWordSelections editor sels else sels))\<rparr>)))"
proof (intro conjI impI)
  assume empty: "getText (document editor) (Some sel) = []"
  then show "findAll (getText (document editor) None) (getText (document editor) (Some sel)) = None"
    by (simp add: findAll_empty_search)
  from assms empty show "selectAllOther w = (Throws RangeError, w)"
    by (rule selectAllOther_empty_seed)
next
  assume ne: "getText (document editor) (Some sel) \<noteq> []"
  from findAll_eq [OF ne, of "getText (document editor) None"]
  obtain found where found:
    "findAll (getText (document editor) None) (getText (document editor) (Some sel)) = Some found"
    by blast
  from selectAllOther_run [OF assms found] found
  show "\<exists>found.
      findAll (getText (document editor) None) (getText (document editor) (Some sel)) = Some found
      \<and> selectAllOther w =
          (Returns, w\<lparr>activeTextEditor := Some (set_selections editor
             (let sels = indicesToSelections editor
                    (splice_array found
                       (arrayIndexOf found (offsetAt (document editor) (start sel))) 1)
                    (length (getText (document editor) (Some sel)))
              in if wholeWords then wholeWordSelections editor sels else sels))\<rparr>)"
    by blast
qed

theorem seed_text_not_guarded_witness:
  "selectAllOther (sampleWindow ''ab'' (span 0 5 0 8)) =
       (Throws RangeError, sampleWindow ''ab'' (span 0 5 0 8))
   \<and> findAll ''abab'' ''ab'' = Some [0, 2]
   \<and> selectAllOther (sampleWindow ''abab'' (span 0 0 0 2)) =
       (Returns, (sampleWindow ''abab'' (span 0 0 0 2))
          \<lparr>activeTextEditor := Some (set_selections (sampleEditor ''abab'' (span 0 0 0 2))
              [span 0 2 0 4])\<rparr>)"
proof -
  let ?E = "sampleEditor ''ab'' (span 0 5 0 8)"
  let ?W = "sampleWindow ''ab'' (span 0 5 0 8)"
  have ed: "activeTextEditor ?W = Some ?E" by (simp add: sampleWindow_def)
  have seed: "getSelection ?E = (Some (span 0 5 0 8), False)" by code_simp
  have empty: "getText (document ?E) (Some (span 0 5 0 8)) = []" by code_simp
  from seed_text_not_guarded [OF ed seed] empty
  have a: "selectAllOther ?W = (Throws RangeError, ?W)" by blast
  let ?E' = "sampleEditor ''abab'' (span 0 0 0 2)"
  let ?W' = "sampleWindow ''abab'' (span 0 0 0 2)"
  have occ: "findAll ''abab'' ''ab'' = Some [0, 2]" by code_simp
  have ed': "activeTextEditor ?W' = Some ?E'" by (simp add: sampleWindow_def)
  have seed': "getSelection ?E' = (Some (span 0 0 0 2), False)" by code_simp
  have ne: "getText (document ?E') (Some (span 0 0 0 2)) \<noteq> []" by code_simp
  have found: "findAll (getText (document ?E') None) (getText (document ?E') (Some (span 0 0 0 2)))
      = Some [0, 2]" by code_simp
  have built: "(let sels = indicesToSelections ?E'
                    (splice_array [0, 2]
                       (arrayIndexOf [0, 2] (offsetAt (document ?E') (start (span 0 0 0 2)))) 1)
                    (length (getText (document ?E') (Some (span 0 0 0 2))))
              in if False then wholeWordSelections ?E' sels else sels) = [span 0 2 0 4]"
    by code_simp
  from seed_text_not_guarded [OF ed' seed'] ne
  obtain found' where
    "findAll (getText (document ?E') None) (getText (document ?E') (Some (span 0 0 0 2))) = Some found'"
    and run: "selectAllOther ?W' =
          (Returns, ?W'\<lparr>activeTextEditor := Some (set_selections ?E'
             (let sels = indicesToSelections ?E'
                    (splice_array found'
                       (arrayIndexOf found' (offsetAt (document ?E') (start (span 0 0 0 2)))) 1)
                    (length (getText (document ?E') (Some (span 0 0 0 2))))
              in if False then wholeWordSelections ?E' sels else sels))\<rparr>)"
    by blast
  with found have "found' = [0, 2]" by simp
  with run have b: "selectAllOther ?W' =
      (Returns, ?W'\<lparr>activeTextEditor := Some (set_selections ?E' [span 0 2 0 4])\<rparr>)"
    unfolding built [symmetric] by simp
  show ?thesis by (rule conjI [OF a conjI [OF occ b]])
qed

text \<open>
  C8, as claimed, fails for the third of its cases, and there only in that no exception
  reaches the editor. In the sample editor holding \<^verbatim>\<open>hello\<close>, with a selection that lies
  on a line past the end of the document, the selection is not empty and the seed text
  is empty; the command leaves the window as it was, but it does not return: it ends by
  the \<^verbatim>\<open>RangeError\<close> of \<^verbatim>\<open>push\<close>.
\<close>

theorem empty_seed_throws_counterexample:
  "\<not> isEmpty (selection (sampleEditor ''hello'' (span 3 0 3 2)))
   \<and> getText (document (sampleEditor ''hello'' (span 3 0 3 2)))
        (Some (selection (sampleEditor ''hello'' (span 3 0 3 2)))) = []
   \<and> selectAllOther (sampleWindow ''hello'' (span 3 0 3 2)) =
       (Throws RangeError, sampleWindow ''hello'' (span 3 0 3 2))
   \<and> fst (selectAllOther (sampleWindow ''hello'' (span 3 0 3 2))) \<noteq> Returns"
proof -
  let ?E = "sampleEditor ''hello'' (span 3 0 3 2)"
  let ?W = "sampleWindow ''hello'' (span 3 0 3 2)"
  have ed: "activeTextEditor ?W = Some ?E" by (simp add: sampleWindow_def)
  have sel: "selection ?E = span 3 0 3 2" by (simp add: sampleEditor_def)
  have nonempty: "\<not> isEmpty (selection ?E)" by code_simp
  have seed: "getSelection ?E = (Some (span 3 0 3 2), False)" by code_simp
  have empty: "getText (document ?E) (Some (span 3 0 3 2)) = []" by code_simp
  have "selectAllOther ?W = (Throws RangeError, ?W)"
    by (rule selectAllOther_empty_seed [OF ed seed empty])
  with nonempty empty sel show ?thesis by simp
qed

text \<open>
  C8, amended. Each of the three failures ends the command before it has assigned
  anything: the window, the editor and its selections are as they were. With no active
  editor, and with an empty selection and no word at the caret, the command returns
  normally and no exception reaches the editor. With an empty seed text, which the
  command does not check, the command ends by the \<^verbatim>\<open>RangeError\<close> thrown in the
  finder, and that exception does reach the editor.
\<close>

theorem precondition_failures_leave_state:
  "(activeTextEditor w = None \<longrightarrow> selectAllOther w = (Returns, w))
   \<and> (activeTextEditor w = Some editor \<and> isEmpty (selection editor)
        \<and> getWordRangeAtPosition (document editor) (start (selection editor)) = None \<longrightarrow>
       selectAllOther w = (Returns, w))
   \<and> (activeTextEditor w = Some editor \<and> getSelection editor = (Some sel, wholeWords)
        \<and> getText (document editor) (Some sel) = [] \<longrightarrow>
       selectAllOther w = (Throws RangeError, w))"
  using selectAllOther_no_editor [of w] selectAllOther_no_seed [of w editor]
    selectAllOther_empty_seed [of w editor sel wholeWords]
  by blast

theorem precondition_failures_leave_state_witness:
  "selectAllOther \<lparr>activeTextEditor = None\<rparr> = (Returns, \<lparr>activeTextEditor = None\<rparr>)
   \<and> selectAllOther (sampleWindow ''a + b'' (span 0 2 0 2)) = (Returns, sampleWindow ''a + b'' (span 0 2 0 2))
   \<and> selectAllOther (sampleWindow ''hello'' (span 3 0 3 2)) =
       (Throws RangeError, sampleWindow ''hello'' (span 3 0 3 2))"
proof -
  have "activeTextEditor \<lparr>activeTextEditor = None\<rparr> = None" by simp
  with precondition_failures_leave_state [of "\<lparr>activeTextEditor = None\<rparr>"]
  have a: "selectAllOther \<lparr>activeTextEditor = None\<rparr> = (Returns, \<lparr>activeTextEditor = None\<rparr>)"
    by blast
  let ?E = "sampleEditor ''a + b'' (span 0 2 0 2)"
  let ?W = "sampleWindow ''a + b'' (span 0 2 0 2)"
  have "activeTextEditor ?W = Some ?E" by (simp add: sampleWindow_def)
  moreover have "isEmpty (selection ?E)" by code_simp
  moreover have "getWordRangeAtPosition (document ?E) (start (selection ?E)) = None" by code_simp
  ultimately have b: "selectAllOther ?W = (Returns, ?W)"
    using precondition_failures_leave_state [of ?W ?E] by blast
  let ?E' = "sampleEditor ''hello'' (span 3 0 3 2)"
  let ?W' = "sampleWindow ''hello'' (span 3 0 3 2)"
  have "activeTextEditor ?W' = Some ?E'" by (simp add: sampleWindow_def)
  moreover have "getSelection ?E' = (Some (span 3 0 3 2), False)" by code_simp
  moreover have "getText (document ?E') (Some (span 3 0 3 2)) = []" by code_simp
  ultimately have c: "selectAllOther ?W' = (Throws RangeError, ?W')"
    using precondition_failures_leave_state [of ?W' ?E' "span 3 0 3 2" False] by blast
  show ?thesis by (rule conjI [OF a conjI [OF b c]])
qed

section \<open>A selection across a line break\<close>

text \<open>
  C2. The claim is that the range built for an offset \<open>i\<close> ends at the position of the
  offset \<open>i + L\<close>, also when the matched text spans a line break. The source builds one
  range per offset, in the order of the offsets (\<open>indicesToSelections_each\<close>), and ends
  it at the start position moved \<open>L\<close> columns to the right on the same line. The two
  differ on a document of three lines, \<^verbatim>\<open>ab\<close>, \<^verbatim>\<open>cd ab\<close> and \<^verbatim>\<open>cd\<close>, with the
  selection from line 0, column 1 to line 1, column 1. The selected text is \<^verbatim>\<open>b\<close>, a
  line feed and \<^verbatim>\<open>c\<close>; it occurs at the offsets 1 and 7. The range built for offset 7
  starts at line 1, column 4 and ends at line 1, column 7, on a line of five characters.
  The position of offset \<open>7 + 3\<close>, where the occurrence ends, is line 2, column 1. The
  command assigns the range that was built, and the editor stores it.
\<close>

theorem selection_across_line_break:
  "getSelection (sampleEditor threeLines (span 0 1 1 1)) = (Some (span 0 1 1 1), False)
   \<and> getText (document (sampleEditor threeLines (span 0 1 1 1))) (Some (span 0 1 1 1))
       = ''b'' @ [CHR 0x0A] @ ''c''
   \<and> findAll threeLines (''b'' @ [CHR 0x0A] @ ''c'') = Some [1, 7]
   \<and> indicesToSelections (sampleEditor threeLines (span 0 1 1 1)) [7] 3 = [span 1 4 1 7]
   \<and> positionAt (document (sampleEditor threeLines (span 0 1 1 1))) 7 = \<lparr>line = 1, character = 4\<rparr>
   \<and> positionAt (document (sampleEditor threeLines (span 0 1 1 1))) (7 + 3) = \<lparr>line = 2, character = 1\<rparr>
   \<and> selectAllOther (sampleWindow threeLines (span 0 1 1 1)) =
       (Returns, (sampleWindow threeLines (span 0 1 1 1))
          \<lparr>activeTextEditor := Some (set_selections (sampleEditor threeLines (span 0 1 1 1))
              [span 1 4 1 7])\<rparr>)
   \<and> selections (set_selections (sampleEditor threeLines (span 0 1 1 1)) [span 1 4 1 7])
       = [span 1 4 1 7]"
proof -
  let ?E = "sampleEditor threeLines (span 0 1 1 1)"
  let ?W = "sampleWindow threeLines (span 0 1 1 1)"
  have ed: "activeTextEditor ?W = Some ?E" by (simp add: sampleWindow_def)
  have seed: "getSelection ?E = (Some (span 0 1 1 1), False)" by code_simp
  have taken: "getText (document ?E) (Some (span 0 1 1 1)) = ''b'' @ [CHR 0x0A] @ ''c''" by code_simp
  have occ: "findAll threeLines (''b'' @ [CHR 0x0A] @ ''c'') = Some [1, 7]" by code_simp
  have built: "indicesToSelections ?E [7] 3 = [span 1 4 1 7]" by code_simp
  have p: "positionAt (document ?E) 7 = \<lparr>line = 1, character = 4\<rparr>" by code_simp
  have q: "positionAt (document ?E) (7 + 3) = \<lparr>line = 2, character = 1\<rparr>" by code_simp
  have found: "findAll (getText (document ?E) None) (getText (document ?E) (Some (span 0 1 1 1)))
      = Some [1, 7]" by code_simp
  have kept: "(let sels = indicesToSelections ?E
             (splice_array [1, 7] (arrayIndexOf [1, 7] (offsetAt (document ?E) (start (span 0 1 1 1)))) 1)
             (length (getText (document ?E) (Some (span 0 1 1 1))))
       in if False then wholeWordSelections ?E sels else sels) = [span 1 4 1 7]" by code_simp
  have run: "selectAllOther ?W =
      (Returns, ?W\<lparr>activeTextEditor := Some (set_selections ?E [span 1 4 1 7])\<rparr>)"
    using selectAllOther_run [OF ed seed found] unfolding kept .
  have stored: "selections (set_selections ?E [span 1 4 1 7]) = [span 1 4 1 7]"
    by (simp add: selections_set_selections)
  show ?thesis by (intro conjI seed taken occ built p q run stored)
qed

end
